theory Spec2Isabelle
  imports Complex_Main "HOL-Library.AList"
begin

section \<open>The serial-to-websocket bridge: data model\<close>

text \<open>
  The bridge is one Python module, \<^verbatim>\<open>websocket_bridge.py\<close>. Its global state is three
  containers: \<^verbatim>\<open>players\<close> (a dict from port address to player info),
  \<^verbatim>\<open>assigned_player_nums\<close> (a set of ints) and \<^verbatim>\<open>connected_clients\<close> (a set of
  websocket objects). All tasks run on one asyncio scheduler, so the code between two
  \<^verbatim>\<open>await\<close>s is atomic; each function below is one such atomic piece, taking the
  state and returning the new one.

  A Python \<^verbatim>\<open>str\<close> is the list of its code points, a \<^verbatim>\<open>bytes\<close> object the list
  of its bytes (numbers below 256). \<open>py\<close> writes an ASCII literal of either type.
  Calls of \<^verbatim>\<open>print\<close> are left out: nothing reads what they write.
\<close>

type_synonym pystr = "nat list"

type_synonym bytes = "nat list"

definition py :: "string \<Rightarrow> pystr" where
  "py s = map of_char s"

datatype error =
    JSONDecodeError | TypeError | AttributeError | KeyError | ValueError
  | UnicodeDecodeError | UnicodeEncodeError | SerialException | OSError

definition MAX_PLAYERS :: int where
  "MAX_PLAYERS = 4"

subsection \<open>The slot allocator\<close>

text \<open>
  \<^verbatim>\<open>get_available_player_num\<close> (lines 18-23): the first \<open>i\<close> of
  \<^verbatim>\<open>range(1, MAX_PLAYERS + 1)\<close> that is not in \<^verbatim>\<open>assigned_player_nums\<close>, or
  \<^verbatim>\<open>None\<close> when the loop runs out.
\<close>

definition get_available_player_num :: "int set \<Rightarrow> int option" where
  "get_available_player_num assigned = List.find (\<lambda>i. i \<notin> assigned) [1..MAX_PLAYERS]"

subsection \<open>Serial handles, bindings, clients\<close>

text \<open>
  A \<^verbatim>\<open>serial.Serial\<close> object, as far as the bridge uses it: the \<^verbatim>\<open>is_open\<close>
  attribute, and the \<^verbatim>\<open>write\<close> method. \<open>write_calls\<close> lists the byte strings handed
  to \<^verbatim>\<open>write\<close>, in call order; \<open>write_raises\<close> says that the driver answers a
  \<^verbatim>\<open>write\<close> with \<^verbatim>\<open>SerialException\<close> (what reaches the wire then is the driver's
  business). Every binding owns the object that line 145 created for it, so the object
  is held inside the binding.
\<close>

record Serial =
  is_open :: bool
  write_raises :: bool
  write_calls :: "bytes list"

record player_info =
  player_num :: int
  serial_conn :: Serial

text \<open>
  A websocket client: \<open>sent\<close> lists the messages that a \<^verbatim>\<open>send\<close> on it, once
  run, has taken. The type
  \<open>'m\<close> of a message is what \<^verbatim>\<open>json.dumps\<close> returns; \<^verbatim>\<open>json.dumps\<close> and
  \<^verbatim>\<open>json.loads\<close> are library code and are parameters of the functions that call them.
\<close>

record 'm ws_client =
  ws_id :: nat
  sent :: "'m list"

datatype json =
    JNull | JBool bool | JInt int | JFloat rat | JNonFinite
  | JStr pystr | JList "json list" | JDict "(pystr \<times> json) list"

text \<open>
  \<^verbatim>\<open>players\<close> is a dict, which keeps insertion order: an association list, written
  with \<open>AList.update\<close> (replace in place, or append) and \<open>AList.delete\<close>.
\<close>

record 'm state =
  players :: "(pystr \<times> player_info) list"
  assigned_player_nums :: "int set"
  connected_clients :: "'m ws_client list"

definition init_state :: "'m state" where
  "init_state = \<lparr>players = [], assigned_player_nums = {}, connected_clients = []\<rparr>"

subsection \<open>Broadcast to the websocket clients\<close>

definition ws_send :: "'m \<Rightarrow> 'm ws_client \<Rightarrow> 'm ws_client" where
  "ws_send m c = c\<lparr>sent := sent c @ [m]\<rparr>"

text \<open>
  What line 84 hands to \<^verbatim>\<open>asyncio.wait\<close>. Calling \<^verbatim>\<open>client.send(message)\<close>, an
  \<^verbatim>\<open>async def\<close>, runs nothing: it makes a coroutine object, which sends when something
  awaits it. A task is a coroutine that the event loop has been given to run.
\<close>

datatype 'm awaitable =
    Coroutine "'m ws_client" 'm
  | Task "'m ws_client" 'm

fun is_coroutine :: "'m awaitable \<Rightarrow> bool" where
  "is_coroutine (Coroutine c m) = True"
| "is_coroutine (Task c m) = False"

fun completed :: "'m awaitable \<Rightarrow> 'm ws_client" where
  "completed (Coroutine c m) = ws_send m c"
| "completed (Task c m) = ws_send m c"

text \<open>
  \<^verbatim>\<open>asyncio.wait(aws)\<close>, as of Python 3.11: \<^verbatim>\<open>ValueError\<close> on an empty collection,
  \<^verbatim>\<open>TypeError\<close> (passing coroutines is forbidden) when a member is a coroutine object,
  and in both cases nothing has run. Given tasks only, it waits until all are done and
  returns, whatever the single sends did (an exception of a \<^verbatim>\<open>send\<close> stays in its
  task). Up to Python 3.10 a coroutine object was wrapped in a task, with a deprecation
  warning.
\<close>

definition asyncio_wait :: "'m awaitable list \<Rightarrow> error + 'm ws_client list" where
  "asyncio_wait aws =
     (if aws = [] then Inl ValueError
      else if list_ex is_coroutine aws then Inl TypeError
      else Inr (map completed aws))"

text \<open>\<^verbatim>\<open>broadcast\<close> (lines 81-84).\<close>

definition broadcast :: "'m \<Rightarrow> 'm ws_client list \<Rightarrow> error + 'm ws_client list" where
  "broadcast message clients =
     (if clients \<noteq> [] then asyncio_wait (map (\<lambda>client. Coroutine client message) clients)
      else Inr clients)"

subsection \<open>The relay's cleanup\<close>

definition disconnected_envelope :: "int \<Rightarrow> pystr \<Rightarrow> json" where
  "disconnected_envelope n port =
     JDict [(py ''status'', JStr (py ''disconnected'')), (py ''player'', JInt n),
            (py ''port'', JStr port)]"

definition connected_envelope :: "int \<Rightarrow> pystr \<Rightarrow> json" where
  "connected_envelope n port =
     JDict [(py ''status'', JStr (py ''connected'')), (py ''player'', JInt n),
            (py ''port'', JStr port)]"

text \<open>
  Lines 113-118 of \<^verbatim>\<open>read_from_serial\<close>, run when the relay's loop has ended.
  \<open>port_address\<close> is the task's argument and \<open>n\<close> the \<^verbatim>\<open>player_num\<close> it read at
  its start (line 93). \<^verbatim>\<open>set.remove\<close> raises \<^verbatim>\<open>KeyError\<close> on a missing element.
  The result is the exception that leaves the piece of code, if any, and the state then.
\<close>

definition relay_cleanup ::
  "(json \<Rightarrow> 'm) \<Rightarrow> pystr \<Rightarrow> int \<Rightarrow> 'm state \<Rightarrow> error option \<times> 'm state" where
  "relay_cleanup dumps port_address n s =
     (case map_of (players s) port_address of
        None \<Rightarrow> (None, s)
      | Some info \<Rightarrow>
          if player_num info \<notin> assigned_player_nums s then (Some KeyError, s)
          else
            let s1 = s\<lparr>assigned_player_nums := assigned_player_nums s - {player_num info},
                       players := AList.delete port_address (players s)\<rparr>
            in (case broadcast (dumps (disconnected_envelope n port_address))
                       (connected_clients s1) of
                  Inl e \<Rightarrow> (Some e, s1)
                | Inr cs \<Rightarrow> (None, s1\<lparr>connected_clients := cs\<rparr>)))"

subsection \<open>The scanner\<close>

text \<open>
  Lines 141-154, the body of the loop over \<^verbatim>\<open>esp_ports\<close> for one port.
  \<open>opened\<close> is what \<^verbatim>\<open>serial.Serial(port, SERIAL_BAUDRATE, timeout=1)\<close> does: it
  returns a handle or raises. Only \<^verbatim>\<open>SerialException\<close> is caught. \<^verbatim>\<open>if player_num:\<close>
  is false for \<^verbatim>\<open>None\<close> and for 0.
\<close>

definition scan_connect ::
  "(json \<Rightarrow> 'm) \<Rightarrow> pystr \<Rightarrow> error + Serial \<Rightarrow> 'm state \<Rightarrow> error option \<times> 'm state" where
  "scan_connect dumps port opened s =
     (if map_of (players s) port \<noteq> None then (None, s)
      else case get_available_player_num (assigned_player_nums s) of
        None \<Rightarrow> (None, s)
      | Some n \<Rightarrow>
          if n = 0 then (None, s)
          else (case opened of
            Inl e \<Rightarrow> (if e = SerialException then None else Some e, s)
          | Inr ser \<Rightarrow>
              let s1 = s\<lparr>players := AList.update port
                            \<lparr>player_num = n, serial_conn = ser\<rparr> (players s),
                         assigned_player_nums := insert n (assigned_player_nums s)\<rparr>
              in (case broadcast (dumps (connected_envelope n port)) (connected_clients s1) of
                    Inl e \<Rightarrow> (if e = SerialException then None else Some e, s1)
                  | Inr cs \<Rightarrow> (None, s1\<lparr>connected_clients := cs\<rparr>))))"

text \<open>
  Lines 157-164: every bound port that is not in \<^verbatim>\<open>esp_ports\<close> has its handle closed;
  the registry is left as it is.
\<close>

definition close_handle :: "player_info \<Rightarrow> player_info" where
  "close_handle info = info\<lparr>serial_conn := (serial_conn info)\<lparr>is_open := False\<rparr>\<rparr>"

definition scan_disconnect :: "pystr list \<Rightarrow> 'm state \<Rightarrow> 'm state" where
  "scan_disconnect esp_ports s =
     s\<lparr>players := map (\<lambda>(port, info).
           if port \<in> set esp_ports then (port, info) else (port, close_handle info))
         (players s)\<rparr>"

subsection \<open>Client registration\<close>

text \<open>
  \<^verbatim>\<open>register_client\<close>: line 69 adds the websocket to the set (adding a member again
  changes nothing), line 79 removes it (\<^verbatim>\<open>KeyError\<close> when it is not there).
\<close>

definition client_add :: "nat \<Rightarrow> 'm state \<Rightarrow> 'm state" where
  "client_add w s =
     (if w \<in> ws_id ` set (connected_clients s) then s
      else s\<lparr>connected_clients := connected_clients s @ [\<lparr>ws_id = w, sent = []\<rparr>]\<rparr>)"

definition client_remove :: "nat \<Rightarrow> 'm state \<Rightarrow> error option \<times> 'm state" where
  "client_remove w s =
     (if w \<in> ws_id ` set (connected_clients s)
      then (None, s\<lparr>connected_clients := filter (\<lambda>c. ws_id c \<noteq> w) (connected_clients s)\<rparr>)
      else (Some KeyError, s))"

subsection \<open>Interleavings\<close>

text \<open>
  The tasks interleave at their \<^verbatim>\<open>await\<close>s, so a run of the bridge is a sequence of the
  atomic pieces above, in any order and with any arguments. A piece that raises ends its
  task; the state stays as the piece left it.
\<close>

datatype event =
    Connect pystr "error + Serial"
  | Disconnect "pystr list"
  | Cleanup pystr int
  | ClientJoin nat
  | ClientLeave nat

fun step :: "(json \<Rightarrow> 'm) \<Rightarrow> event \<Rightarrow> 'm state \<Rightarrow> error option \<times> 'm state" where
  "step dumps (Connect port opened) s = scan_connect dumps port opened s"
| "step dumps (Disconnect esp_ports) s = (None, scan_disconnect esp_ports s)"
| "step dumps (Cleanup port n) s = relay_cleanup dumps port n s"
| "step dumps (ClientJoin w) s = (None, client_add w s)"
| "step dumps (ClientLeave w) s = client_remove w s"

definition run :: "(json \<Rightarrow> 'm) \<Rightarrow> event list \<Rightarrow> 'm state \<Rightarrow> 'm state" where
  "run dumps evs s = foldl (\<lambda>s e. snd (step dumps e s)) s evs"

definition slots :: "'m state \<Rightarrow> int list" where
  "slots s = map (\<lambda>(port, info). player_num info) (players s)"

definition registry_inv :: "'m state \<Rightarrow> bool" where
  "registry_inv s \<longleftrightarrow>
     distinct (map fst (players s)) \<and> distinct (slots s)
     \<and> assigned_player_nums s = set (slots s)
     \<and> assigned_player_nums s \<subseteq> {1..MAX_PLAYERS}"

subsection \<open>Text: UTF-8, whitespace, substrings\<close>

text \<open>
  \<^verbatim>\<open>str.encode('utf-8')\<close>: one to four bytes for a code point; a surrogate (D800-DFFF)
  raises \<^verbatim>\<open>UnicodeEncodeError\<close>. A \<^verbatim>\<open>str\<close> holds no code point from 110000 on.
\<close>

definition utf8_char :: "nat \<Rightarrow> error + bytes" where
  "utf8_char c =
     (if c < 0x80 then Inr [c]
      else if c < 0x800 then Inr [0xC0 + c div 0x40, 0x80 + c mod 0x40]
      else if 0xD800 \<le> c \<and> c \<le> 0xDFFF then Inl UnicodeEncodeError
      else if c < 0x10000 then
        Inr [0xE0 + c div 0x1000, 0x80 + (c div 0x40) mod 0x40, 0x80 + c mod 0x40]
      else if c < 0x110000 then
        Inr [0xF0 + c div 0x40000, 0x80 + (c div 0x1000) mod 0x40,
             0x80 + (c div 0x40) mod 0x40, 0x80 + c mod 0x40]
      else Inl UnicodeEncodeError)"

fun utf8_encode :: "pystr \<Rightarrow> error + bytes" where
  "utf8_encode [] = Inr []"
| "utf8_encode (c # cs) =
     (case utf8_char c of
        Inl e \<Rightarrow> Inl e
      | Inr bs \<Rightarrow> (case utf8_encode cs of Inl e \<Rightarrow> Inl e | Inr rest \<Rightarrow> Inr (bs @ rest)))"

text \<open>
  \<^verbatim>\<open>bytes.decode('utf-8')\<close>, strict: the well-formed byte sequences of the Unicode
  standard (no overlong form, no surrogate, nothing above 10FFFF); anything else raises
  \<^verbatim>\<open>UnicodeDecodeError\<close>.
\<close>

definition is_cont :: "nat \<Rightarrow> bool" where
  "is_cont b \<longleftrightarrow> 0x80 \<le> b \<and> b \<le> 0xBF"

definition cons_ok :: "nat \<Rightarrow> error + pystr \<Rightarrow> error + pystr" where
  "cons_ok c r = (case r of Inl e \<Rightarrow> Inl e | Inr cs \<Rightarrow> Inr (c # cs))"

fun utf8_decode :: "bytes \<Rightarrow> error + pystr" where
  "utf8_decode [] = Inr []"
| "utf8_decode (b0 # bs) =
     (if b0 < 0x80 then cons_ok b0 (utf8_decode bs)
      else if 0xC2 \<le> b0 \<and> b0 \<le> 0xDF then
        (case bs of
           b1 # r \<Rightarrow>
             if is_cont b1
             then cons_ok ((b0 - 0xC0) * 0x40 + (b1 - 0x80)) (utf8_decode r)
             else Inl UnicodeDecodeError
         | _ \<Rightarrow> Inl UnicodeDecodeError)
      else if 0xE0 \<le> b0 \<and> b0 \<le> 0xEF then
        (case bs of
           b1 # b2 # r \<Rightarrow>
             if (if b0 = 0xE0 then 0xA0 else 0x80) \<le> b1
                \<and> b1 \<le> (if b0 = 0xED then 0x9F else 0xBF) \<and> is_cont b2
             then cons_ok ((b0 - 0xE0) * 0x1000 + (b1 - 0x80) * 0x40 + (b2 - 0x80))
                    (utf8_decode r)
             else Inl UnicodeDecodeError
         | _ \<Rightarrow> Inl UnicodeDecodeError)
      else if 0xF0 \<le> b0 \<and> b0 \<le> 0xF4 then
        (case bs of
           b1 # b2 # b3 # r \<Rightarrow>
             if (if b0 = 0xF0 then 0x90 else 0x80) \<le> b1
                \<and> b1 \<le> (if b0 = 0xF4 then 0x8F else 0xBF) \<and> is_cont b2 \<and> is_cont b3
             then cons_ok ((b0 - 0xF0) * 0x40000 + (b1 - 0x80) * 0x1000
                           + (b2 - 0x80) * 0x40 + (b3 - 0x80))
                    (utf8_decode r)
             else Inl UnicodeDecodeError
         | _ \<Rightarrow> Inl UnicodeDecodeError)
      else Inl UnicodeDecodeError)"





text \<open>\<^verbatim>\<open>x in y\<close> for two strings: \<open>x\<close> occurs in \<open>y\<close> as a contiguous piece.\<close>

fun is_substr :: "pystr \<Rightarrow> pystr \<Rightarrow> bool" where
  "is_substr x [] = (x = [])"
| "is_substr x (c # cs) = (take (length x) (c # cs) = x \<or> is_substr x cs)"

subsection \<open>The inbound router\<close>

text \<open>
  \<^verbatim>\<open>"player_id" in data\<close> (line 32) on what \<^verbatim>\<open>json.loads\<close> returned: a key test on a
  dict, an element test on a list, a substring test on a string, \<^verbatim>\<open>TypeError\<close> on
  \<^verbatim>\<open>None\<close>, a bool or a number. \<^verbatim>\<open>data.get\<close> (line 33) exists on a dict only.
\<close>

definition json_contains :: "pystr \<Rightarrow> json \<Rightarrow> error + bool" where
  "json_contains key data =
     (case data of
        JDict kv \<Rightarrow> Inr (map_of kv key \<noteq> None)
      | JList xs \<Rightarrow> Inr (JStr key \<in> set xs)
      | JStr t \<Rightarrow> Inr (is_substr key t)
      | _ \<Rightarrow> Inl TypeError)"

definition json_get :: "pystr \<Rightarrow> json \<Rightarrow> error + json" where
  "json_get key data =
     (case data of
        JDict kv \<Rightarrow> Inr (case map_of kv key of None \<Rightarrow> JNull | Some v \<Rightarrow> v)
      | _ \<Rightarrow> Inl AttributeError)"

text \<open>
  \<^verbatim>\<open>player_info['player_num'] == target_player_id\<close> (line 36), the left side an int:
  Python compares an int with an int, a bool (\<^verbatim>\<open>True == 1\<close>) or a float by value, and
  with anything else it is unequal.
\<close>

definition py_eq_int :: "int \<Rightarrow> json \<Rightarrow> bool" where
  "py_eq_int n v =
     (case v of
        JInt k \<Rightarrow> n = k
      | JBool b \<Rightarrow> n = (if b then 1 else 0)
      | JFloat q \<Rightarrow> of_int n = q
      | _ \<Rightarrow> False)"

text \<open>\<^verbatim>\<open>ser.write(data)\<close>: the call is recorded; the driver may raise.\<close>

definition ser_write :: "bytes \<Rightarrow> Serial \<Rightarrow> error option \<times> Serial" where
  "ser_write data ser =
     (if write_raises ser then Some SerialException else None,
      ser\<lparr>write_calls := write_calls ser @ [data]\<rparr>)"

text \<open>
  Lines 37-46, the \<^verbatim>\<open>try\<close> of the targeted loop for one matching binding: the
  exception caught by line 45 if any, and the binding afterwards. Line 41 encodes the
  message before it calls \<^verbatim>\<open>write\<close>. The result \<open>None\<close> with an open handle is the
  path that sets \<^verbatim>\<open>found_player\<close> and breaks.
\<close>

definition try_write :: "pystr \<Rightarrow> player_info \<Rightarrow> error option \<times> player_info" where
  "try_write message info =
     (case utf8_encode message of
        Inl e \<Rightarrow> (Some e, info)
      | Inr bs \<Rightarrow>
          (case ser_write (bs @ [0x0A]) (serial_conn info) of
             (exn, ser') \<Rightarrow> (exn, info\<lparr>serial_conn := ser'\<rparr>)))"

text \<open>
  Lines 34-46: the loop over \<^verbatim>\<open>players.items()\<close>, in the dict's order. The result is
  \<^verbatim>\<open>found_player\<close> and the bindings afterwards.
\<close>

fun forward_to ::
  "json \<Rightarrow> pystr \<Rightarrow> (pystr \<times> player_info) list \<Rightarrow> bool \<times> (pystr \<times> player_info) list" where
  "forward_to target message [] = (False, [])"
| "forward_to target message ((port, info) # rest) =
     (if py_eq_int (player_num info) target \<and> is_open (serial_conn info) then
        (case try_write message info of
           (None, info') \<Rightarrow> (True, (port, info') # rest)
         | (Some e, info') \<Rightarrow>
             (case forward_to target message rest of
                (found, rest') \<Rightarrow> (found, (port, info') # rest')))
      else
        (case forward_to target message rest of
           (found, rest') \<Rightarrow> (found, (port, info) # rest')))"

text \<open>Lines 53-60: the broadcast loop; line 59 catches what one write raises.\<close>

definition write_all :: "pystr \<Rightarrow> (pystr \<times> player_info) list \<Rightarrow> (pystr \<times> player_info) list" where
  "write_all message ps =
     map (\<lambda>(port, info).
        if is_open (serial_conn info) then (port, snd (try_write message info))
        else (port, info)) ps"

text \<open>
  Lines 29-60, the body of the outer \<^verbatim>\<open>try\<close>: \<open>Inl\<close> is an exception that reaches
  the handlers of lines 62-65. All of them are raised before the first write.
\<close>

definition route ::
  "(pystr \<Rightarrow> error + json) \<Rightarrow> pystr \<Rightarrow> (pystr \<times> player_info) list
     \<Rightarrow> error + (pystr \<times> player_info) list" where
  "route loads message ps =
     (case loads message of
        Inl e \<Rightarrow> Inl e
      | Inr data \<Rightarrow>
          (case json_contains (py ''player_id'') data of
             Inl e \<Rightarrow> Inl e
           | Inr True \<Rightarrow>
               (case json_get (py ''player_id'') data of
                  Inl e \<Rightarrow> Inl e
                | Inr target \<Rightarrow> Inr (snd (forward_to target message ps)))
           | Inr False \<Rightarrow> Inr (write_all message ps)))"

text \<open>
  \<^verbatim>\<open>handle_websocket_message\<close> (lines 25-65) for a text frame. Line 62 catches
  \<^verbatim>\<open>JSONDecodeError\<close>, line 64 every other exception; both only print. The result is
  the exception that leaves the function, if any, and the bindings afterwards.
\<close>

definition handle_websocket_message ::
  "(pystr \<Rightarrow> error + json) \<Rightarrow> pystr \<Rightarrow> (pystr \<times> player_info) list
     \<Rightarrow> error option \<times> (pystr \<times> player_info) list" where
  "handle_websocket_message loads message ps =
     (case route loads message ps of
        Inl e \<Rightarrow> (if e = JSONDecodeError then (None, ps) else (None, ps))
      | Inr ps' \<Rightarrow> (None, ps'))"

subsection \<open>The relay's loop body\<close>







subsection \<open>The scanner's filter and cycle\<close>

text \<open>
  An entry of \<^verbatim>\<open>serial.tools.list_ports.comports()\<close>; \<^verbatim>\<open>manufacturer\<close> and
  \<^verbatim>\<open>description\<close> may be \<^verbatim>\<open>None\<close>.
\<close>

record port_info =
  device :: pystr
  manufacturer :: "pystr option"
  description :: "pystr option"

text \<open>\<^verbatim>\<open>x or d\<close>: \<open>x\<close> when it is truthy, that is neither \<^verbatim>\<open>None\<close> nor empty.\<close>

definition py_or :: "pystr option \<Rightarrow> pystr \<Rightarrow> pystr option" where
  "py_or x d = (case x of None \<Rightarrow> Some d | Some t \<Rightarrow> if t = [] then Some d else Some t)"

text \<open>\<^verbatim>\<open>"..." in y\<close>: \<^verbatim>\<open>TypeError\<close> when \<open>y\<close> is \<^verbatim>\<open>None\<close>.\<close>

definition str_in :: "pystr \<Rightarrow> pystr option \<Rightarrow> error + bool" where
  "str_in x y = (case y of None \<Rightarrow> Inl TypeError | Some t \<Rightarrow> Inr (is_substr x t))"

text \<open>The condition of the comprehension of line 137.\<close>

definition port_qualifies :: "port_info \<Rightarrow> error + bool" where
  "port_qualifies p = str_in (py ''Serial'') (py_or (description p) [])"

text \<open>
  Line 137: the set of the devices of the qualifying entries, as a list without
  repetition (the order in which a set is walked is not fixed).
\<close>

fun esp_ports :: "port_info list \<Rightarrow> error + pystr list" where
  "esp_ports [] = Inr []"
| "esp_ports (p # ps) =
     (case port_qualifies p of
        Inl e \<Rightarrow> Inl e
      | Inr q \<Rightarrow>
          (case esp_ports ps of
             Inl e \<Rightarrow> Inl e
           | Inr ds \<Rightarrow> Inr (if q then List.insert (device p) ds else ds)))"

text \<open>
  Lines 140-154, the loop over \<^verbatim>\<open>esp_ports\<close>; \<open>opener\<close> is
  \<^verbatim>\<open>serial.Serial\<close>. An exception that \<open>scan_connect\<close> lets through ends the cycle.
\<close>

fun scan_connect_all ::
  "(json \<Rightarrow> 'm) \<Rightarrow> (pystr \<Rightarrow> error + Serial) \<Rightarrow> pystr list \<Rightarrow> 'm state
     \<Rightarrow> error option \<times> 'm state" where
  "scan_connect_all dumps opener [] s = (None, s)"
| "scan_connect_all dumps opener (port # ports) s =
     (case scan_connect dumps port (opener port) s of
        (Some e, s') \<Rightarrow> (Some e, s')
      | (None, s') \<Rightarrow> scan_connect_all dumps opener ports s')"

text \<open>Lines 125-164, one cycle of \<^verbatim>\<open>com_port_scanner\<close> without interleaved tasks.\<close>

definition scan_cycle ::
  "(json \<Rightarrow> 'm) \<Rightarrow> (pystr \<Rightarrow> error + Serial) \<Rightarrow> port_info list \<Rightarrow> 'm state
     \<Rightarrow> error option \<times> 'm state" where
  "scan_cycle dumps opener available_ports s =
     (case esp_ports available_ports of
        Inl e \<Rightarrow> (Some e, s)
      | Inr esp \<Rightarrow>
          (case scan_connect_all dumps opener esp s of
             (Some e, s') \<Rightarrow> (Some e, s')
           | (None, s') \<Rightarrow> (None, scan_disconnect esp s')))"

text \<open>A binding after one more call of \<^verbatim>\<open>write\<close> on its handle.\<close>

definition wrote :: "bytes \<Rightarrow> player_info \<Rightarrow> player_info" where
  "wrote data info =
     info\<lparr>serial_conn := (serial_conn info)\<lparr>write_calls := write_calls (serial_conn info) @ [data]\<rparr>\<rparr>"

subsection \<open>Sample values\<close>

text \<open>A freshly opened handle.\<close>

definition ser0 :: Serial where
  "ser0 = \<lparr>is_open = True, write_raises = False, write_calls = []\<rparr>"

definition loads_reject :: "pystr \<Rightarrow> error + json" where
  "loads_reject m = Inl JSONDecodeError"

definition msg2 :: pystr where
  "msg2 = py ''{\"player_id\": 2, \"x\":1}''"

definition loads2 :: "pystr \<Rightarrow> error + json" where
  "loads2 m = (if m = msg2 then Inr (JDict [(py ''player_id'', JInt 2), (py ''x'', JInt 1)])
               else Inl JSONDecodeError)"

definition msgx :: pystr where
  "msgx = py ''{\"x\":1}''"

definition loadsx :: "pystr \<Rightarrow> error + json" where
  "loadsx m = (if m = msgx then Inr (JDict [(py ''x'', JInt 1)]) else Inl JSONDecodeError)"

definition two_players :: "(pystr \<times> player_info) list" where
  "two_players =
     [(py ''COM3'', \<lparr>player_num = 1, serial_conn = ser0\<lparr>write_raises := True\<rparr>\<rparr>),
      (py ''COM4'', \<lparr>player_num = 2, serial_conn = ser0\<rparr>)]"

section \<open>The slot allocator returns the least free slot\<close>

lemma get_available_Some_iff:
  "get_available_player_num A = Some i \<longleftrightarrow>
     1 \<le> i \<and> i \<le> MAX_PLAYERS \<and> i \<notin> A \<and> (\<forall>j. 1 \<le> j \<and> j < i \<longrightarrow> j \<in> A)"
proof -
  have nth: "\<And>k. k < length [1..MAX_PLAYERS] \<Longrightarrow> [1..MAX_PLAYERS] ! k = 1 + int k"
    by simp
  show ?thesis
  proof
    assume "get_available_player_num A = Some i"
    then obtain k where k: "k < length [1..MAX_PLAYERS]" "[1..MAX_PLAYERS] ! k \<notin> A"
        "i = [1..MAX_PLAYERS] ! k" "\<forall>m<k. [1..MAX_PLAYERS] ! m \<in> A"
      unfolding get_available_player_num_def find_Some_iff by blast
    have ik: "i = 1 + int k" using k(1,3) nth by simp
    have "\<forall>j. 1 \<le> j \<and> j < i \<longrightarrow> j \<in> A"
    proof (intro allI impI)
      fix j assume j: "1 \<le> j \<and> j < i"
      define m where "m = nat (j - 1)"
      have "m < k" using j ik unfolding m_def by linarith
      then have "[1..MAX_PLAYERS] ! m \<in> A" using k(4) by blast
      moreover have "[1..MAX_PLAYERS] ! m = j"
        using \<open>m < k\<close> k(1) j nth [of m] by (simp add: m_def)
      ultimately show "j \<in> A" by simp
    qed
    moreover have "1 \<le> i" "i \<le> MAX_PLAYERS" "i \<notin> A"
      using k ik by auto
    ultimately show "1 \<le> i \<and> i \<le> MAX_PLAYERS \<and> i \<notin> A \<and> (\<forall>j. 1 \<le> j \<and> j < i \<longrightarrow> j \<in> A)"
      by blast
  next
    assume a: "1 \<le> i \<and> i \<le> MAX_PLAYERS \<and> i \<notin> A \<and> (\<forall>j. 1 \<le> j \<and> j < i \<longrightarrow> j \<in> A)"
    define k where "k = nat (i - 1)"
    have kl: "k < length [1..MAX_PLAYERS]" using a by (simp add: k_def)
    have ki: "[1..MAX_PLAYERS] ! k = i" using a kl nth [of k] by (simp add: k_def)
    have "\<forall>m<k. [1..MAX_PLAYERS] ! m \<in> A"
    proof (intro allI impI)
      fix m assume "m < k"
      then have "[1..MAX_PLAYERS] ! m = 1 + int m" using kl nth [of m] by simp
      moreover have "1 \<le> 1 + int m \<and> 1 + int m < i" using \<open>m < k\<close> unfolding k_def by linarith
      ultimately show "[1..MAX_PLAYERS] ! m \<in> A" using a by simp
    qed
    then show "get_available_player_num A = Some i"
      unfolding get_available_player_num_def find_Some_iff using kl ki a by blast
  qed
qed

lemma get_available_None_iff:
  "get_available_player_num A = None \<longleftrightarrow> {1..MAX_PLAYERS} \<subseteq> A"
  by (auto simp: get_available_player_num_def find_None_iff)

text \<open>
  Claim C2. For every set of assigned player numbers the allocator returns the smallest
  integer of 1..MAX_PLAYERS that is not assigned, and it returns None exactly when every
  integer of 1..MAX_PLAYERS is assigned.
\<close>

theorem allocator_least_free:
  "(get_available_player_num A = Some i \<longleftrightarrow>
      i \<in> {1..MAX_PLAYERS} \<and> i \<notin> A \<and> (\<forall>j \<in> {1..MAX_PLAYERS}. j \<notin> A \<longrightarrow> i \<le> j))
   \<and> (get_available_player_num A = None \<longleftrightarrow> (\<forall>j \<in> {1..MAX_PLAYERS}. j \<in> A))"
proof -
  have "(1 \<le> i \<and> i \<le> MAX_PLAYERS \<and> i \<notin> A \<and> (\<forall>j. 1 \<le> j \<and> j < i \<longrightarrow> j \<in> A))
      \<longleftrightarrow> (i \<in> {1..MAX_PLAYERS} \<and> i \<notin> A \<and> (\<forall>j \<in> {1..MAX_PLAYERS}. j \<notin> A \<longrightarrow> i \<le> j))"
    by (auto simp: not_le [symmetric])
  then show ?thesis
    by (simp only: get_available_Some_iff get_available_None_iff subset_eq)
qed

theorem allocator_least_free_witness:
  "get_available_player_num {1, 3} = Some 2
   \<and> (2::int) \<in> {1..MAX_PLAYERS} \<and> (2::int) \<notin> {1, 3}
   \<and> get_available_player_num {1, 2, 3, 4} = None"
proof -
  have a: "(2::int) \<in> {1..MAX_PLAYERS} \<and> (2::int) \<notin> {1, 3}
      \<and> (\<forall>j \<in> {1..MAX_PLAYERS}. j \<notin> {1, 3::int} \<longrightarrow> 2 \<le> j)"
    by (auto simp: MAX_PLAYERS_def)
  have b: "\<forall>j \<in> {1..MAX_PLAYERS}. j \<in> {1, 2, 3, 4::int}"
    by (auto simp: MAX_PLAYERS_def)
  from a b show ?thesis
    using allocator_least_free [of "{1, 3}" 2] allocator_least_free [of "{1, 2, 3, 4}" 0]
    by blast
qed

section \<open>The registry invariant\<close>

lemma broadcast_eq: "broadcast m cs = (if cs = [] then Inr [] else Inl TypeError)"
  by (cases cs) (simp_all add: broadcast_def asyncio_wait_def)

lemma set_slots_delete:
  assumes "distinct (map fst ps)" "distinct (map (\<lambda>(port, info). player_num info) ps)"
    "map_of ps p = Some info"
  shows "set (map (\<lambda>(port, info). player_num info) (AList.delete p ps))
           = set (map (\<lambda>(port, info). player_num info) ps) - {player_num info}"
  using assms
proof (induction ps)
  case Nil then show ?case by simp
next
  case (Cons a ps)
  obtain k v where a: "a = (k, v)" by (cases a)
  show ?case
  proof (cases "k = p")
    case True
    then have "AList.delete p ps = ps"
      using Cons.prems(1) a by (simp add: AList.delete_id)
    then show ?thesis using True a Cons.prems by (auto simp: AList.delete_eq)
  next
    case False
    then have m: "map_of ps p = Some info" using Cons.prems a by simp
    then have "(p, info) \<in> set ps" by (rule map_of_SomeD)
    then have "player_num info \<in> set (map (\<lambda>(port, info). player_num info) ps)" by force
    then have "player_num v \<noteq> player_num info" using Cons.prems(2) a by auto
    then show ?thesis using False a Cons.prems m Cons.IH by (auto simp: AList.delete_eq)
  qed
qed

lemma distinct_slots_delete:
  "distinct (map (\<lambda>(port, info). player_num info) ps)
   \<Longrightarrow> distinct (map (\<lambda>(port, info). player_num info) (AList.delete p ps))"
  by (simp add: AList.delete_eq distinct_map_filter)

lemma cleanup_inv:
  assumes "registry_inv s"
  shows "registry_inv (snd (relay_cleanup dumps p n s))"
proof (cases "map_of (players s) p")
  case None
  then show ?thesis using assms by (simp add: relay_cleanup_def)
next
  case (Some info)
  have "(p, info) \<in> set (players s)" using Some by (rule map_of_SomeD)
  then have mem: "player_num info \<in> assigned_player_nums s"
    using assms by (force simp: registry_inv_def slots_def)
  show ?thesis
    using assms Some mem set_slots_delete [of "players s" p info]
      distinct_slots_delete [of "players s" p]
    by (auto simp: relay_cleanup_def broadcast_eq Let_def registry_inv_def slots_def
        AList.distinct_delete)
qed

lemma slots_update_new:
  "map_of ps p = None \<Longrightarrow>
   map (\<lambda>(port, info). player_num info) (AList.update p v ps)
     = map (\<lambda>(port, info). player_num info) ps @ [player_num v]"
  by (induction ps) (auto split: if_splits)

lemma connect_inv:
  assumes "registry_inv s"
  shows "registry_inv (snd (scan_connect dumps p opened s))"
proof (cases "map_of (players s) p")
  case (Some info)
  then show ?thesis using assms by (simp add: scan_connect_def)
next
  case None
  show ?thesis
  proof (cases "get_available_player_num (assigned_player_nums s)")
    case N: None
    then show ?thesis using assms None by (simp add: scan_connect_def)
  next
    case (Some n)
    then have n: "1 \<le> n" "n \<le> MAX_PLAYERS" "n \<notin> assigned_player_nums s"
      by (simp_all add: get_available_Some_iff)
    show ?thesis
    proof (cases opened)
      case (Inl e)
      then show ?thesis using assms None Some by (simp add: scan_connect_def)
    next
      case (Inr ser)
      have P: "players (snd (scan_connect dumps p opened s))
                 = AList.update p \<lparr>player_num = n, serial_conn = ser\<rparr> (players s)"
        and A: "assigned_player_nums (snd (scan_connect dumps p opened s))
                 = insert n (assigned_player_nums s)"
        using None Some n(1) Inr
        by (cases "connected_clients s = []";
            simp add: scan_connect_def broadcast_eq Let_def)+
      show ?thesis
        using assms None n slots_update_new [of "players s" p "\<lparr>player_num = n, serial_conn = ser\<rparr>"]
        by (auto simp: P A registry_inv_def slots_def AList.distinct_update)
    qed
  qed
qed

lemma disconnect_keys: "map fst (players (scan_disconnect esp s)) = map fst (players s)"
  by (simp add: scan_disconnect_def split_def comp_def)

lemma disconnect_slots: "slots (scan_disconnect esp s) = slots s"
  by (simp add: scan_disconnect_def slots_def split_def comp_def close_handle_def)

lemma disconnect_assigned:
  "assigned_player_nums (scan_disconnect esp s) = assigned_player_nums s"
  by (simp add: scan_disconnect_def)

lemma disconnect_inv:
  "registry_inv s \<Longrightarrow> registry_inv (scan_disconnect esp s)"
  unfolding registry_inv_def
  by (auto simp: disconnect_keys disconnect_slots disconnect_assigned)

lemma client_add_inv: "registry_inv s \<Longrightarrow> registry_inv (client_add w s)"
  by (auto simp: client_add_def registry_inv_def slots_def)

lemma client_remove_inv: "registry_inv s \<Longrightarrow> registry_inv (snd (client_remove w s))"
  by (auto simp: client_remove_def registry_inv_def slots_def)

lemma step_inv: "registry_inv s \<Longrightarrow> registry_inv (snd (step dumps e s))"
  by (cases e) (simp_all add: cleanup_inv connect_inv disconnect_inv client_add_inv
      client_remove_inv)

lemma run_inv: "registry_inv s \<Longrightarrow> registry_inv (run dumps evs s)"
  unfolding run_def by (induction evs arbitrary: s) (simp_all add: step_inv)

lemma init_inv: "registry_inv init_state"
  by (simp add: registry_inv_def init_state_def slots_def)

lemma inv_bound:
  assumes "registry_inv s"
  shows "int (length (players s)) \<le> MAX_PLAYERS"
proof -
  have "length (players s) = length (slots s)" by (simp add: slots_def)
  also have "\<dots> = card (set (slots s))"
    using assms by (simp add: registry_inv_def distinct_card)
  also have "\<dots> \<le> card {1..MAX_PLAYERS}"
    using assms by (intro card_mono) (auto simp: registry_inv_def)
  finally show ?thesis by (simp add: MAX_PLAYERS_def)
qed

text \<open>
  Claim C1. Whatever sequence of scanner steps (connect attempts, handle closing), relay
  cleanups and client registrations has run from the empty registry, the registry holds
  at most MAX_PLAYERS bindings and no two of them have the same player slot.
\<close>

theorem registry_bounded:
  "int (length (players (run dumps evs init_state))) \<le> MAX_PLAYERS
   \<and> distinct (slots (run dumps evs init_state))"
proof -
  have inv: "registry_inv (run dumps evs init_state)"
    by (rule run_inv [OF init_inv])
  from inv have "distinct (slots (run dumps evs init_state))"
    unfolding registry_inv_def by blast
  with inv_bound [OF inv] show ?thesis by blast
qed

section \<open>Slot reuse\<close>

lemma cleanup_frees_slot:
  assumes "registry_inv s" "map_of (players s) p = Some info"
  shows "player_num info \<notin> set (slots (snd (relay_cleanup dumps p n s)))"
proof -
  have "(p, info) \<in> set (players s)" using assms(2) by (rule map_of_SomeD)
  then have mem: "player_num info \<in> assigned_player_nums s"
    using assms(1) by (force simp: registry_inv_def slots_def)
  have "set (slots (snd (relay_cleanup dumps p n s))) = set (slots s) - {player_num info}"
    using assms mem set_slots_delete [of "players s" p info]
    by (simp add: relay_cleanup_def broadcast_eq Let_def registry_inv_def slots_def)
  then show ?thesis by simp
qed

lemma connect_takes_free_slot_one:
  assumes "registry_inv s" "1 \<notin> set (slots s)" "map_of (players s) B = None"
  shows "map_of (players (snd (scan_connect dumps B (Inr ser) s))) B
           = Some \<lparr>player_num = 1, serial_conn = ser\<rparr>"
proof -
  have "1 \<notin> assigned_player_nums s" using assms(1,2) by (simp add: registry_inv_def)
  then have "get_available_player_num (assigned_player_nums s) = Some 1"
    unfolding get_available_Some_iff by (auto simp: MAX_PLAYERS_def)
  then show ?thesis
    using assms(3) by (simp add: scan_connect_def broadcast_eq Let_def update_conv')
qed

text \<open>
  Claim C3. In any state the bridge can reach, when the device that holds slot 1 is
  cleaned up by its relay, slot 1 is held by no binding; and whatever runs next, the
  first device that the scanner then connects (not bound yet, opened without error)
  while no binding holds slot 1 is bound to slot 1.
\<close>

theorem slot_one_reused:
  assumes "s = run dumps evs init_state"
    and "map_of (players s) A = Some info" and "player_num info = 1"
    and "s1 = snd (relay_cleanup dumps A n s)"
    and "s2 = run dumps mid s1"
    and "1 \<notin> set (slots s2)" and "map_of (players s2) B = None"
  shows "1 \<notin> set (slots s1)
       \<and> map_of (players (snd (scan_connect dumps B (Inr ser) s2))) B
           = Some \<lparr>player_num = 1, serial_conn = ser\<rparr>"
proof -
  have inv: "registry_inv s" using assms(1) run_inv [OF init_inv] by simp
  then have inv1: "registry_inv s1" using assms(4) cleanup_inv by simp
  then have inv2: "registry_inv s2" using assms(5) run_inv by simp
  have "1 \<notin> set (slots s1)"
    using cleanup_frees_slot [OF inv assms(2), of dumps n] assms(3,4) by simp
  moreover note connect_takes_free_slot_one [OF inv2 assms(6,7)]
  ultimately show ?thesis by blast
qed

lemmas eval_simps = run_def scan_connect_def relay_cleanup_def init_state_def broadcast_eq
  Let_def py_def slots_def ser0_def get_available_player_num_def MAX_PLAYERS_def upto.simps
  AList.delete_eq ws_send_def

theorem slot_one_reused_witness:
  "map_of (players (run (\<lambda>j. j) [Connect (py ''COM3'') (Inr ser0)] init_state)) (py ''COM3'')
      = Some \<lparr>player_num = 1, serial_conn = ser0\<rparr>
   \<and> 1 \<notin> set (slots (run (\<lambda>j. j) []
        (snd (relay_cleanup (\<lambda>j. j) (py ''COM3'') 1
           (run (\<lambda>j. j) [Connect (py ''COM3'') (Inr ser0)] init_state)))))
   \<and> map_of (players (run (\<lambda>j. j) []
        (snd (relay_cleanup (\<lambda>j. j) (py ''COM3'') 1
           (run (\<lambda>j. j) [Connect (py ''COM3'') (Inr ser0)] init_state))))) (py ''COM4'') = None
   \<and> map_of (players (snd (scan_connect (\<lambda>j. j) (py ''COM4'') (Inr ser0)
        (run (\<lambda>j. j) []
          (snd (relay_cleanup (\<lambda>j. j) (py ''COM3'') 1
             (run (\<lambda>j. j) [Connect (py ''COM3'') (Inr ser0)] init_state))))))) (py ''COM4'')
      = Some \<lparr>player_num = 1, serial_conn = ser0\<rparr>"
proof -
  have h1: "map_of (players (run (\<lambda>j. j) [Connect (py ''COM3'') (Inr ser0)] init_state))
      (py ''COM3'') = Some \<lparr>player_num = 1, serial_conn = ser0\<rparr>"
    by (simp add: eval_simps)
  have h2: "player_num \<lparr>player_num = 1, serial_conn = ser0\<rparr> = 1" by simp
  have h3: "1 \<notin> set (slots (run (\<lambda>j. j) []
        (snd (relay_cleanup (\<lambda>j. j) (py ''COM3'') 1
           (run (\<lambda>j. j) [Connect (py ''COM3'') (Inr ser0)] init_state)))))"
    by (simp add: eval_simps)
  have h4: "map_of (players (run (\<lambda>j. j) []
        (snd (relay_cleanup (\<lambda>j. j) (py ''COM3'') 1
           (run (\<lambda>j. j) [Connect (py ''COM3'') (Inr ser0)] init_state))))) (py ''COM4'') = None"
    by (simp add: eval_simps)
  from slot_one_reused [OF refl h1 h2 refl refl h3 h4, of ser0] h1 h3 h4
  show ?thesis by blast
qed

section \<open>Cleanup runs once\<close>

text \<open>
  The registry part: the first cleanup of a bound port (whose slot is in the assigned
  set) removes the binding and frees the slot, so both change; a second run finds the
  port unbound, changes nothing and raises nothing.
\<close>

lemma cleanup_registry_once:
  assumes "map_of (players s) p = Some info"
    and "player_num info \<in> assigned_player_nums s"
  shows
    "players (snd (relay_cleanup dumps p n s)) = AList.delete p (players s)
     \<and> assigned_player_nums (snd (relay_cleanup dumps p n s))
         = assigned_player_nums s - {player_num info}
     \<and> players (snd (relay_cleanup dumps p n s)) \<noteq> players s
     \<and> assigned_player_nums (snd (relay_cleanup dumps p n s)) \<noteq> assigned_player_nums s
     \<and> relay_cleanup dumps p n (snd (relay_cleanup dumps p n s))
         = (None, snd (relay_cleanup dumps p n s))"
proof -
  have "(p, info) \<in> set (players s)" using assms(1) by (rule map_of_SomeD)
  then have "p \<in> fst ` set (players s)" by force
  moreover have "p \<notin> fst ` set (AList.delete p (players s))"
    by (rule delete_notin_dom)
  ultimately have neq: "AList.delete p (players s) \<noteq> players s" by metis
  have gone: "map_of (AList.delete p (players s)) p = None"
    by (simp add: delete_conv')
  have neq2: "assigned_player_nums s - {player_num info} \<noteq> assigned_player_nums s"
    using assms(2) by blast
  show ?thesis
  proof (cases "connected_clients s = []")
    case True
    then show ?thesis
      using assms neq neq2 gone by (simp add: relay_cleanup_def broadcast_eq Let_def)
  next
    case False
    then show ?thesis
      using assms neq neq2 gone by (simp add: relay_cleanup_def broadcast_eq Let_def)
  qed
qed

text \<open>
  Claim C7. Of two runs of the relay's cleanup for the same port, only the first changes
  the registry; the second changes nothing and sends nothing. But the first run does not
  emit the disconnected envelope when a client is connected: line 118 calls broadcast with
  the envelope (status disconnected, the player number, the port), line 84 hands coroutine
  objects to asyncio.wait, which raises TypeError, so the run ends in that exception after
  it has removed the binding and the slot, and the client has been sent nothing.
\<close>

theorem cleanup_envelope_not_sent:
  "relay_cleanup (\<lambda>j. j) (py ''COM3'') 1
        \<lparr>players = [(py ''COM3'', \<lparr>player_num = 1, serial_conn = ser0\<rparr>)],
         assigned_player_nums = {1}, connected_clients = [\<lparr>ws_id = 0, sent = []\<rparr>]\<rparr>
     = (Some TypeError, \<lparr>players = [], assigned_player_nums = {},
         connected_clients = [\<lparr>ws_id = 0, sent = []\<rparr>]\<rparr>)
   \<and> relay_cleanup (\<lambda>j. j) (py ''COM3'') 1
        \<lparr>players = [], assigned_player_nums = {},
         connected_clients = [\<lparr>ws_id = 0, sent = []\<rparr>]\<rparr>
     = (None, \<lparr>players = [], assigned_player_nums = {},
         connected_clients = [\<lparr>ws_id = 0, sent = []\<rparr>]\<rparr>)
   \<and> disconnected_envelope 1 (py ''COM3'')
     = JDict [(py ''status'', JStr (py ''disconnected'')), (py ''player'', JInt 1),
              (py ''port'', JStr (py ''COM3''))]
   \<and> broadcast (disconnected_envelope 1 (py ''COM3'')) [\<lparr>ws_id = 0, sent = []\<rparr>]
     = Inl TypeError"
  by (simp add: relay_cleanup_def broadcast_eq Let_def AList.delete_eq disconnected_envelope_def)

section \<open>Broadcast with no client\<close>

text \<open>
  Claim C9. With no connected client, broadcast sends nothing and raises nothing: the
  guard of line 83 keeps the empty list away from asyncio.wait, which would raise
  ValueError on it; and with any clients, broadcast does not end in ValueError.
\<close>

theorem broadcast_no_clients:
  "broadcast message [] = Inr []
   \<and> asyncio_wait ([] :: 'm awaitable list) = Inl ValueError
   \<and> broadcast message clients \<noteq> Inl ValueError"
  by (simp add: broadcast_eq asyncio_wait_def)

section \<open>The inbound router\<close>

lemma try_write_snd:
  "utf8_encode message = Inr bs \<Longrightarrow> snd (try_write message info) = wrote (bs @ [0x0A]) info"
  by (simp add: try_write_def ser_write_def wrote_def)

lemma py_eq_int_unique: "py_eq_int a v \<Longrightarrow> py_eq_int b v \<Longrightarrow> a = b"
  by (cases v) (auto simp: py_eq_int_def)

lemma forward_to_no_match:
  "\<forall>(p, i) \<in> set ps. \<not> py_eq_int (player_num i) target
   \<Longrightarrow> forward_to target message ps = (False, ps)"
  by (induction ps) auto

lemma map_other_keys:
  "D \<notin> fst ` set ps \<Longrightarrow> map (\<lambda>(port, i). if port = D then (port, f i) else (port, i)) ps = ps"
  by (induction ps) auto

lemma forward_to_target:
  assumes "utf8_encode message = Inr bs"
    and "distinct (map fst ps)" and "map_of ps D = Some info"
    and "py_eq_int (player_num info) target" and "is_open (serial_conn info)"
    and "\<forall>(p, i) \<in> set ps. py_eq_int (player_num i) target \<longrightarrow> p = D"
  shows "snd (forward_to target message ps)
           = map (\<lambda>(port, i). if port = D then (port, wrote (bs @ [0x0A]) i) else (port, i)) ps"
  using assms(2,3,6)
proof (induction ps)
  case Nil
  then show ?case by simp
next
  case (Cons a ps)
  obtain port i where a: "a = (port, i)" by (cases a)
  show ?case
  proof (cases "port = D")
    case True
    then have i: "i = info" using Cons.prems(2) a by simp
    have notin: "D \<notin> fst ` set ps" using Cons.prems(1) a True by simp
    then have nomatch: "\<forall>(p, i) \<in> set ps. \<not> py_eq_int (player_num i) target"
      using Cons.prems(3) by force
    obtain exn info' where tw: "try_write message info = (exn, info')"
      by (cases "try_write message info")
    then have info': "info' = wrote (bs @ [0x0A]) info"
      using try_write_snd [OF assms(1), of info] by simp
    show ?thesis
      using a True i assms(4,5) tw info' map_other_keys [OF notin]
        forward_to_no_match [OF nomatch, of message]
      by (cases exn) simp_all
  next
    case False
    then have "\<not> py_eq_int (player_num i) target" using Cons.prems(3) a by auto
    moreover have "snd (forward_to target message ps)
           = map (\<lambda>(port, i). if port = D then (port, wrote (bs @ [0x0A]) i) else (port, i)) ps"
      using Cons.IH Cons.prems a False by simp
    ultimately show ?thesis using a False by (simp add: split_def)
  qed
qed

lemma write_all_eq:
  "utf8_encode message = Inr bs \<Longrightarrow>
   write_all message ps
     = map (\<lambda>(port, i). if is_open (serial_conn i) then (port, wrote (bs @ [0x0A]) i)
                         else (port, i)) ps"
  by (auto simp: write_all_def try_write_snd)

text \<open>
  Claim C4. When slot s is bound to exactly one device D and D's handle is open, a message
  that parses to an object whose player_id equals s is written, as its own text and a
  newline, once to D's handle, and no other binding's handle is written to.
\<close>

theorem targeted_routing:
  assumes "loads message = Inr (JDict kv)"
    and "map_of kv (py ''player_id'') = Some v" and "py_eq_int s v"
    and "utf8_encode message = Inr bs"
    and "distinct (map fst ps)" and "map_of ps D = Some info"
    and "player_num info = s" and "is_open (serial_conn info)"
    and "\<forall>(p, i) \<in> set ps. player_num i = s \<longrightarrow> p = D"
  shows "handle_websocket_message loads message ps
           = (None, map (\<lambda>(port, i). if port = D then (port, wrote (bs @ [0x0A]) i)
                                      else (port, i)) ps)"
proof -
  have only: "\<forall>(p, i) \<in> set ps. py_eq_int (player_num i) v \<longrightarrow> p = D"
    using assms(3,9) py_eq_int_unique by blast
  have "snd (forward_to v message ps)
          = map (\<lambda>(port, i). if port = D then (port, wrote (bs @ [0x0A]) i) else (port, i)) ps"
    using forward_to_target [OF assms(4,5,6) _ assms(8) only] assms(3,7) by simp
  then show ?thesis
    using assms(1,2)
    by (simp add: handle_websocket_message_def route_def json_contains_def json_get_def)
qed

text \<open>
  Claim C5. A message that parses to an object without player_id is written, as its own
  text and a newline, once to the handle of every binding whose handle is open, whether
  or not any of these writes raises; closed handles are not written to.
\<close>

theorem broadcast_routing:
  assumes "loads message = Inr (JDict kv)"
    and "map_of kv (py ''player_id'') = None"
    and "utf8_encode message = Inr bs"
  shows "handle_websocket_message loads message ps
           = (None, map (\<lambda>(port, i). if is_open (serial_conn i)
                                      then (port, wrote (bs @ [0x0A]) i) else (port, i)) ps)"
  using assms
  by (simp add: handle_websocket_message_def route_def json_contains_def write_all_eq)

text \<open>
  Claim C6. A message that json.loads rejects is dropped: no handle is written to and no
  exception leaves the handler.
\<close>

theorem malformed_dropped:
  assumes "loads message = Inl e"
  shows "handle_websocket_message loads message ps = (None, ps)"
  using assms by (simp add: handle_websocket_message_def route_def)

lemma enc_msg2: "utf8_encode msg2 = Inr msg2"
  by (simp add: msg2_def py_def utf8_char_def)

lemma enc_msgx: "utf8_encode msgx = Inr msgx"
  by (simp add: msgx_def py_def utf8_char_def)

theorem malformed_dropped_witness:
  "loads_reject (py ''hello'') = Inl JSONDecodeError
   \<and> handle_websocket_message loads_reject (py ''hello'') two_players = (None, two_players)"
proof -
  have h: "loads_reject (py ''hello'') = Inl JSONDecodeError" by (simp add: loads_reject_def)
  from malformed_dropped [of loads_reject "py ''hello''" JSONDecodeError two_players, OF h] h show ?thesis by simp
qed

theorem broadcast_routing_witness:
  "loadsx msgx = Inr (JDict [(py ''x'', JInt 1)])
   \<and> utf8_encode msgx = Inr msgx
   \<and> handle_websocket_message loadsx msgx two_players
       = (None,
          [(py ''COM3'', \<lparr>player_num = 1,
              serial_conn = \<lparr>is_open = True, write_raises = True, write_calls = [msgx @ [0x0A]]\<rparr>\<rparr>),
           (py ''COM4'', \<lparr>player_num = 2,
              serial_conn = \<lparr>is_open = True, write_raises = False, write_calls = [msgx @ [0x0A]]\<rparr>\<rparr>)])"
proof -
  have h1: "loadsx msgx = Inr (JDict [(py ''x'', JInt 1)])" by (simp add: loadsx_def)
  have h2: "map_of [(py ''x'', JInt 1)] (py ''player_id'') = None" by (simp add: py_def)
  from broadcast_routing [of loadsx msgx "[(py ''x'', JInt 1)]" msgx two_players, OF h1 h2 enc_msgx] h1 enc_msgx
  show ?thesis by (simp add: two_players_def wrote_def ser0_def)
qed

theorem targeted_routing_witness:
  "loads2 msg2 = Inr (JDict [(py ''player_id'', JInt 2), (py ''x'', JInt 1)])
   \<and> utf8_encode msg2 = Inr msg2
   \<and> map_of two_players (py ''COM4'') = Some \<lparr>player_num = 2, serial_conn = ser0\<rparr>
   \<and> handle_websocket_message loads2 msg2 two_players
       = (None,
          [(py ''COM3'', \<lparr>player_num = 1, serial_conn = ser0\<lparr>write_raises := True\<rparr>\<rparr>),
           (py ''COM4'', \<lparr>player_num = 2,
              serial_conn = \<lparr>is_open = True, write_raises = False, write_calls = [msg2 @ [0x0A]]\<rparr>\<rparr>)])"
proof -
  have h1: "loads2 msg2 = Inr (JDict [(py ''player_id'', JInt 2), (py ''x'', JInt 1)])"
    by (simp add: loads2_def)
  have h2: "map_of [(py ''player_id'', JInt 2), (py ''x'', JInt 1)] (py ''player_id'') = Some (JInt 2)"
    by simp
  have h3: "py_eq_int 2 (JInt 2)" by (simp add: py_eq_int_def)
  have h5: "distinct (map fst two_players)" by (simp add: two_players_def py_def)
  have h6: "map_of two_players (py ''COM4'') = Some \<lparr>player_num = 2, serial_conn = ser0\<rparr>"
    by (simp add: two_players_def py_def)
  have h7: "player_num \<lparr>player_num = 2, serial_conn = ser0\<rparr> = 2" by simp
  have h8: "is_open (serial_conn \<lparr>player_num = 2, serial_conn = ser0\<rparr>)" by (simp add: ser0_def)
  have h9: "\<forall>(p, i) \<in> set two_players. player_num i = 2 \<longrightarrow> p = py ''COM4''"
    by (simp add: two_players_def)
  from targeted_routing [of loads2 msg2 "[(py ''player_id'', JInt 2), (py ''x'', JInt 1)]" "JInt 2" 2 msg2 two_players "py ''COM4''" "\<lparr>player_num = 2, serial_conn = ser0\<rparr>", OF h1 h2 h3 enc_msg2 h5 h6 h7 h8 h9] h1 enc_msg2 h6
  show ?thesis by (simp add: two_players_def wrote_def ser0_def py_def)
qed

section \<open>The scanner's filter\<close>

lemma qualifies_None:
  "port_qualifies \<lparr>device = d, manufacturer = m, description = None\<rparr> = Inr False"
  by (simp add: port_qualifies_def py_or_def str_in_def py_def)

lemma esp_ports_skip:
  "esp_ports (ps @ \<lparr>device = d, manufacturer = m, description = None\<rparr> # qs) = esp_ports (ps @ qs)"
  by (induction ps) (simp_all add: qualifies_None split: sum.splits)

lemma scan_connect_all_inv:
  "registry_inv s \<Longrightarrow> registry_inv (snd (scan_connect_all dumps opener ports s))"
proof (induction ports arbitrary: s)
  case Nil
  then show ?case by simp
next
  case (Cons port ports)
  obtain exn s' where sc: "scan_connect dumps port (opener port) s = (exn, s')"
    by (cases "scan_connect dumps port (opener port) s")
  then have "registry_inv s'" using connect_inv [OF Cons.prems, of dumps port "opener port"] by simp
  then show ?case using sc Cons.IH by (cases exn) simp_all
qed

lemma scan_cycle_inv:
  "registry_inv s \<Longrightarrow> registry_inv (snd (scan_cycle dumps opener available s))"
proof -
  assume inv: "registry_inv s"
  show ?thesis
  proof (cases "esp_ports available")
    case (Inl e)
    then show ?thesis using inv by (simp add: scan_cycle_def)
  next
    case (Inr esp)
    obtain exn s' where sc: "scan_connect_all dumps opener esp s = (exn, s')"
      by (cases "scan_connect_all dumps opener esp s")
    then have "registry_inv s'" using scan_connect_all_inv [OF inv, of dumps opener esp] by simp
    then show ?thesis using Inr sc by (cases exn) (simp_all add: scan_cycle_def disconnect_inv)
  qed
qed

text \<open>
  Claim C10. An enumerated device whose description is None does not qualify, and the
  filter raises nothing on it: the description is replaced by the empty string before the
  test for the substring Serial (on None itself the test would raise TypeError), so the
  entry is skipped in the scan. The test is case-sensitive.
\<close>

theorem missing_description_ignored:
  "port_qualifies \<lparr>device = d, manufacturer = m, description = None\<rparr> = Inr False
   \<and> py_or None [] = Some []
   \<and> str_in (py ''Serial'') None = Inl TypeError
   \<and> esp_ports (ps @ \<lparr>device = d, manufacturer = m, description = None\<rparr> # qs)
       = esp_ports (ps @ qs)
   \<and> port_qualifies \<lparr>device = d, manufacturer = m, description = Some (py ''USB Serial'')\<rparr>
       = Inr True
   \<and> port_qualifies \<lparr>device = d, manufacturer = m, description = Some (py ''usb serial'')\<rparr>
       = Inr False"
  by (simp add: qualifies_None esp_ports_skip)
     (simp add: port_qualifies_def py_or_def str_in_def py_def)

section \<open>The relay's loop body\<close>








section \<open>UTF-8: what is encoded decodes to itself\<close>

text \<open>
  Every text without surrogates has an encoding (a websocket text frame is such a text),
  and the decoder reads an encoding back as the text it came from.
\<close>

lemma utf8_char_ok:
  "c < 0x110000 \<Longrightarrow> \<not> (0xD800 \<le> c \<and> c \<le> 0xDFFF) \<Longrightarrow> \<exists>bs. utf8_char c = Inr bs"
  by (simp add: utf8_char_def)

lemma utf8_encode_ok:
  "\<forall>c \<in> set cs. c < 0x110000 \<and> \<not> (0xD800 \<le> c \<and> c \<le> 0xDFFF)
   \<Longrightarrow> \<exists>bs. utf8_encode cs = Inr bs"
proof (induction cs)
  case Nil
  then show ?case by simp
next
  case (Cons c cs)
  then obtain bs where "utf8_char c = Inr bs" using utf8_char_ok [of c] by auto
  moreover obtain rest where "utf8_encode cs = Inr rest" using Cons by auto
  ultimately show ?case by simp
qed

lemma dec3: "(c::nat) = (c div 0x1000) * 0x1000 + ((c div 0x40) mod 0x40) * 0x40 + c mod 0x40"
proof -
  have "c div 0x1000 = (c div 0x40) div 0x40" by (simp add: div_mult2_eq)
  moreover have "c div 0x40 = (c div 0x40) div 0x40 * 0x40 + (c div 0x40) mod 0x40" by simp
  moreover have "c = (c div 0x40) * 0x40 + c mod 0x40" by simp
  ultimately show ?thesis by linarith
qed

lemma dec4: "(c::nat) = (c div 0x40000) * 0x40000 + ((c div 0x1000) mod 0x40) * 0x1000
    + ((c div 0x40) mod 0x40) * 0x40 + c mod 0x40"
proof -
  have "c div 0x40000 = (c div 0x1000) div 0x40" by (simp add: div_mult2_eq)
  moreover have "c div 0x1000 = (c div 0x1000) div 0x40 * 0x40 + (c div 0x1000) mod 0x40" by simp
  ultimately have "c div 0x1000 = (c div 0x40000) * 0x40 + (c div 0x1000) mod 0x40" by linarith
  then show ?thesis using dec3 [of c] by linarith
qed

lemma utf8_decode_char:
  assumes "utf8_char c = Inr bs"
  shows "utf8_decode (bs @ rest) = cons_ok c (utf8_decode rest)"
proof -
  define d where "d = c mod 0x40"
  define b where "b = (c div 0x40) mod 0x40"
  define b' where "b' = (c div 0x1000) mod 0x40"
  have m: "d \<le> 0x3F" "b \<le> 0x3F" "b' \<le> 0x3F"
    unfolding d_def b_def b'_def by (simp_all add: less_Suc_eq_le [symmetric])
  consider "c < 0x80" | "0x80 \<le> c" "c < 0x800" | "0x800 \<le> c" "c < 0x10000" | "0x10000 \<le> c"
    by linarith
  then show ?thesis
  proof cases
    case 1
    then show ?thesis using assms by (auto simp: utf8_char_def)
  next
    case 2
    define a where "a = c div 0x40"
    have bs: "bs = [0xC0 + a, 0x80 + d]"
      using 2 assms by (auto simp: utf8_char_def a_def d_def)
    have c: "c = a * 0x40 + d" by (simp add: a_def d_def)
    have "0xC2 \<le> 0xC0 + a" "0xC0 + a \<le> 0xDF" "\<not> 0xC0 + a < 0x80" using 2 c m by linarith+
    moreover have "(0xC0 + a - 0xC0) * 0x40 + (0x80 + d - 0x80) = c" using c by simp
    ultimately show ?thesis unfolding bs using m by (simp add: is_cont_def)
  next
    case 3
    define a where "a = c div 0x1000"
    have ns: "\<not> (0xD800 \<le> c \<and> c \<le> 0xDFFF)"
      and bs: "bs = [0xE0 + a, 0x80 + b, 0x80 + d]"
      using 3 assms by (auto simp: utf8_char_def a_def b_def d_def split: if_splits)
    have c: "c = a * 0x1000 + b * 0x40 + d" unfolding a_def b_def d_def by (rule dec3)
    have r: "0xE0 \<le> 0xE0 + a" "0xE0 + a \<le> 0xEF" using 3 c m by linarith+
    have e0: "0xE0 + a = 0xE0 \<Longrightarrow> 0xA0 \<le> 0x80 + b" using 3 c m by linarith
    have ed: "0xE0 + a = 0xED \<Longrightarrow> 0x80 + b \<le> 0x9F" using 3 ns c m by linarith
    have v: "(0xE0 + a - 0xE0) * 0x1000 + (0x80 + b - 0x80) * 0x40 + (0x80 + d - 0x80) = c"
      using c by simp
    have nlow: "\<not> 0xE0 + a < 0x80" "\<not> (0xC2 \<le> 0xE0 + a \<and> 0xE0 + a \<le> 0xDF)"
      by linarith+
    have rng: "(if 0xE0 + a = 0xE0 then 0xA0 else 0x80) \<le> 0x80 + b"
        "0x80 + b \<le> (if 0xE0 + a = 0xED then 0x9F else 0xBF)"
      using e0 ed m by (auto split: if_splits)
    have ic: "is_cont (0x80 + d)" using m by (simp add: is_cont_def)
    show ?thesis
      unfolding bs append_Cons append_Nil utf8_decode.simps(2) [of "0xE0 + a"]
      using r v nlow rng ic by (simp only: if_True if_False list.case simp_thms)
  next
    case 4
    define a where "a = c div 0x40000"
    have lt: "c < 0x110000"
      and bs: "bs = [0xF0 + a, 0x80 + b', 0x80 + b, 0x80 + d]"
      using 4 assms by (auto simp: utf8_char_def a_def b_def b'_def d_def split: if_splits)
    have c: "c = a * 0x40000 + b' * 0x1000 + b * 0x40 + d"
      unfolding a_def b_def b'_def d_def by (rule dec4)
    have r: "0xF0 \<le> 0xF0 + a" "0xF0 + a \<le> 0xF4" using 4 lt c m by linarith+
    have f0: "0xF0 + a = 0xF0 \<Longrightarrow> 0x90 \<le> 0x80 + b'" using 4 c m by linarith
    have f4: "0xF0 + a = 0xF4 \<Longrightarrow> 0x80 + b' \<le> 0x8F" using 4 lt c m by linarith
    have v: "(0xF0 + a - 0xF0) * 0x40000 + (0x80 + b' - 0x80) * 0x1000
              + (0x80 + b - 0x80) * 0x40 + (0x80 + d - 0x80) = c"
      using c by simp
    have nlow: "\<not> 0xF0 + a < 0x80" "\<not> (0xC2 \<le> 0xF0 + a \<and> 0xF0 + a \<le> 0xDF)"
       "\<not> (0xE0 \<le> 0xF0 + a \<and> 0xF0 + a \<le> 0xEF)"
      by linarith+
    have rng: "(if 0xF0 + a = 0xF0 then 0x90 else 0x80) \<le> 0x80 + b'"
        "0x80 + b' \<le> (if 0xF0 + a = 0xF4 then 0x8F else 0xBF)"
      using f0 f4 m by (auto split: if_splits)
    have ic: "is_cont (0x80 + b)" "is_cont (0x80 + d)" using m by (simp_all add: is_cont_def)
    show ?thesis
      unfolding bs append_Cons append_Nil utf8_decode.simps(2) [of "0xF0 + a"]
      using r v nlow rng ic by (simp only: if_True if_False list.case simp_thms)
  qed
qed

lemma utf8_roundtrip: "utf8_encode cs = Inr bs \<Longrightarrow> utf8_decode bs = Inr cs"
proof (induction cs arbitrary: bs)
  case Nil
  then show ?case by simp
next
  case (Cons c cs)
  then obtain b rest where b: "utf8_char c = Inr b" "utf8_encode cs = Inr rest" "bs = b @ rest"
    by (auto split: sum.splits)
  then show ?case using Cons.IH [of rest] utf8_decode_char [OF b(1), of rest]
    by (simp add: cons_ok_def)
qed

text \<open>In a state that satisfies the registry invariant, line 116 never raises.\<close>

lemma cleanup_no_error:
  assumes "registry_inv s"
  shows "fst (relay_cleanup dumps p n s) \<noteq> Some KeyError"
proof (cases "map_of (players s) p")
  case None
  then show ?thesis by (simp add: relay_cleanup_def)
next
  case (Some info)
  have "(p, info) \<in> set (players s)" using Some by (rule map_of_SomeD)
  then have "player_num info \<in> assigned_player_nums s"
    using assms by (force simp: registry_inv_def slots_def)
  then show ?thesis using Some by (simp add: relay_cleanup_def broadcast_eq Let_def)
qed

end
